theory Spec2Isabelle
  imports Complex_Main
begin

section \<open>Values of the dashboard component\<close>

text \<open>
  The component \<open>Dashboard\<close> reads a grid of spreadsheet cells, turns every row after the
  header row into an object keyed by the header names (\<open>parseValues\<close>), derives one chart
  entry per row (\<open>chartData\<close>, with the coercions \<open>parseNumber\<close>, \<open>parsePercent\<close> and
  \<open>normalizeYesNo\<close>), averages two fields (\<open>totals\<close>) and lists the five entries with
  the largest margin expansion.

  A JavaScript number is a finite binary64 number, one of the two infinities or NaN. A
  finite number is written as the rational it is; the sign of zero, which nothing in
  the component observes, is left out.
\<close>

datatype jsnum = NaN | NegInf | Fin rat | PosInf

subsection \<open>Rounding to binary64\<close>

text \<open>
  Every arithmetic operation and \<open>parseFloat\<close> yield the binary64 number nearest to
  the exact result, the one with the even significand in a tie. A positive rational is
  brought to the form \<open>m * 2 ^ e\<close> with \<open>2 ^ 52 \<le> m < 2 ^ 53\<close>, or with \<open>e = -1074\<close> and a
  smaller \<open>m\<close> in the subnormal range; \<open>m\<close> is rounded to an integer; a result of
  \<open>2 ^ 1024\<close> or more is an infinity.
\<close>

function norm_down :: "rat \<Rightarrow> int \<Rightarrow> rat \<times> int" where
  "norm_down m e = (if 2 ^ 53 \<le> m then norm_down (m / 2) (e + 1) else (m, e))"
  by pat_completeness auto
termination
proof (relation "measure (\<lambda>(m, e). nat \<lfloor>m\<rfloor>)")
  show "wf (measure (\<lambda>(m, e). nat \<lfloor>m\<rfloor>))" by simp
next
  fix m :: rat and e :: int
  assume "2 ^ 53 \<le> m"
  then have "2 \<le> m" by simp
  then have "m / 2 < of_int \<lfloor>m\<rfloor>" by linarith
  then have "\<lfloor>m / 2\<rfloor> < \<lfloor>m\<rfloor>" by (simp add: floor_less_iff)
  moreover have "0 < \<lfloor>m\<rfloor>" using \<open>2 \<le> m\<close> by linarith
  ultimately show "((m / 2, e + 1), (m, e)) \<in> measure (\<lambda>(m, e). nat \<lfloor>m\<rfloor>)"
    by simp
qed

function norm_up :: "rat \<Rightarrow> int \<Rightarrow> rat \<times> int" where
  "norm_up m e = (if m < 2 ^ 52 \<and> - 1074 < e then norm_up (2 * m) (e - 1) else (m, e))"
  by pat_completeness auto
termination
  by (relation "measure (\<lambda>(m, e). nat (e + 1074))") auto

declare norm_down.simps [simp del] norm_up.simps [simp del]

text \<open>The nearest integer, the even one of two that are equally near.\<close>

definition round_even :: "rat \<Rightarrow> int" where
  "round_even m =
     (let f = \<lfloor>m\<rfloor>
      in if m - of_int f < 1 / 2 then f
         else if 1 / 2 < m - of_int f then f + 1
         else if even f then f else f + 1)"

definition round_abs :: "rat \<Rightarrow> rat" where
  "round_abs a =
     (case norm_down a 0 of
        (m, e) \<Rightarrow> (case norm_up m e of (m', e') \<Rightarrow> of_int (round_even m') * 2 powi e'))"

definition round64 :: "rat \<Rightarrow> jsnum" where
  "round64 q =
     (let r = round_abs \<bar>q\<bar>
      in if 2 ^ 1024 \<le> r then (if q < 0 then NegInf else PosInf)
         else Fin (if q < 0 then - r else r))"

text \<open>
  A cell is what JSON decoding of the sheet yields (a string, a number, a boolean or
  null), or \<open>undefined\<close>, which reading past the end of a row or a missing property gives.
\<close>

datatype cell = Undefined | Null | Bool bool | Number jsnum | Str string

text \<open>
  Strings are lists of characters, and the model is exact on ASCII text. A character
  beyond ASCII stands as its UTF-8 bytes, which the functions below take for ordinary
  characters: none of them is white space or has another case.
\<close>

text \<open>\<open>!v\<close> is false exactly for the truthy values.\<close>

fun truthy :: "cell \<Rightarrow> bool" where
  "truthy Undefined = False"
| "truthy Null = False"
| "truthy (Bool b) = b"
| "truthy (Number x) = (x \<noteq> NaN \<and> x \<noteq> Fin 0)"
| "truthy (Str s) = (s \<noteq> [])"

text \<open>\<open>a || b\<close>: the left operand when it is truthy, the right one otherwise.\<close>

definition jor :: "cell \<Rightarrow> cell \<Rightarrow> cell" where
  "jor a b = (if truthy a then a else b)"

text \<open>
  \<open>String(v)\<close>. The digits that \<open>Number::toString\<close> prints for a finite number are the
  host's; they are the parameter \<open>nts\<close> of every function that converts a cell.
\<close>

fun to_string :: "(rat \<Rightarrow> string) \<Rightarrow> cell \<Rightarrow> string" where
  "to_string nts Undefined = ''undefined''"
| "to_string nts Null = ''null''"
| "to_string nts (Bool b) = (if b then ''true'' else ''false'')"
| "to_string nts (Number NaN) = ''NaN''"
| "to_string nts (Number PosInf) = ''Infinity''"
| "to_string nts (Number NegInf) = ''-Infinity''"
| "to_string nts (Number (Fin q)) = nts q"
| "to_string nts (Str s) = s"

subsection \<open>String methods\<close>

text \<open>White space of \<open>trim\<close>, of \<open>\s\<close> and of \<open>parseFloat\<close>: tab, LF, VT, FF, CR, space.\<close>

definition is_space :: "char \<Rightarrow> bool" where
  "is_space c = (c \<in> set [CHR 0x09, CHR 0x0A, CHR 0x0B, CHR 0x0C, CHR 0x0D, CHR 0x20])"

definition trim :: "string \<Rightarrow> string" where
  "trim s = rev (dropWhile is_space (rev (dropWhile is_space s)))"

definition toLower :: "char \<Rightarrow> char" where
  "toLower c =
     (case map_of (zip ''ABCDEFGHIJKLMNOPQRSTUVWXYZ'' ''abcdefghijklmnopqrstuvwxyz'') c of
        Some d \<Rightarrow> d | None \<Rightarrow> c)"

definition toUpper :: "char \<Rightarrow> char" where
  "toUpper c =
     (case map_of (zip ''abcdefghijklmnopqrstuvwxyz'' ''ABCDEFGHIJKLMNOPQRSTUVWXYZ'') c of
        Some d \<Rightarrow> d | None \<Rightarrow> c)"

definition toLowerCase :: "string \<Rightarrow> string" where
  "toLowerCase s = map toLower s"

text \<open>\<open>s.startsWith(x)\<close> and \<open>s.includes(x)\<close>.\<close>

fun startsWith :: "string \<Rightarrow> string \<Rightarrow> bool" where
  "startsWith s [] = True"
| "startsWith [] (x # xs) = False"
| "startsWith (c # s) (x # xs) = (c = x \<and> startsWith s xs)"

fun includes_str :: "string \<Rightarrow> string \<Rightarrow> bool" where
  "includes_str [] x = (x = [])"
| "includes_str (c # s) x = (startsWith (c # s) x \<or> includes_str s x)"

text \<open>\<open>s.replace(c, '')\<close> for a one-character string pattern: the first occurrence goes.\<close>

definition replace_first :: "char \<Rightarrow> string \<Rightarrow> string" where
  "replace_first c s = remove1 c s"

subsection \<open>parseFloat\<close>

definition is_digit :: "char \<Rightarrow> bool" where
  "is_digit c = (c \<in> set ''0123456789'')"

definition digit_val :: "char \<Rightarrow> int" where
  "digit_val c = of_char c - of_char (CHR ''0'')"

definition digits_val :: "string \<Rightarrow> int" where
  "digits_val ds = foldl (\<lambda>a c. 10 * a + digit_val c) 0 ds"

text \<open>
  The exponent part: \<open>e\<close> or \<open>E\<close>, an optional sign and at least one digit; anything
  else is no exponent and leaves the factor \<open>1\<close>.
\<close>

definition exponent_part :: "string \<Rightarrow> int" where
  "exponent_part s =
     (case s of
        [] \<Rightarrow> 0
      | c # r \<Rightarrow>
          if c = CHR ''e'' \<or> c = CHR ''E'' then
            (case r of
               [] \<Rightarrow> 0
             | d # r' \<Rightarrow>
                 if d = CHR ''-'' then
                   (if takeWhile is_digit r' = [] then 0
                    else - digits_val (takeWhile is_digit r'))
                 else if d = CHR ''+'' then digits_val (takeWhile is_digit r')
                 else digits_val (takeWhile is_digit r))
          else 0)"

text \<open>
  The longest prefix that is an unsigned decimal literal, and its value: digits, then
  an optional fraction and an optional exponent; at least one digit stands before or
  after the point. \<open>None\<close> when no prefix is such a literal.
\<close>

definition str_decimal :: "string \<Rightarrow> rat option" where
  "str_decimal s =
     (let ip = takeWhile is_digit s;
          r1 = dropWhile is_digit s;
          fp = (if startsWith r1 ''.'' then takeWhile is_digit (tl r1) else []);
          r2 = (if startsWith r1 ''.'' then dropWhile is_digit (tl r1) else r1)
      in if ip = [] \<and> fp = [] then None
         else Some ((of_int (digits_val ip) + of_int (digits_val fp) / 10 ^ length fp)
                    * 10 powi (exponent_part r2)))"

text \<open>
  \<open>parseFloat\<close> skips leading white space and reads the longest prefix that is a decimal
  literal: an optional sign, then \<open>Infinity\<close> or an unsigned literal, whose value is
  rounded to binary64. With no such prefix the result is NaN.
\<close>

definition parseFloat :: "string \<Rightarrow> jsnum" where
  "parseFloat str =
     (let s = dropWhile is_space str;
          neg = startsWith s ''-'';
          s1 = (if startsWith s ''-'' \<or> startsWith s ''+'' then tl s else s)
      in if startsWith s1 ''Infinity'' then (if neg then NegInf else PosInf)
         else case str_decimal s1 of
                None \<Rightarrow> NaN
              | Some v \<Rightarrow> round64 (if neg then - v else v))"

section \<open>The coercions\<close>

text \<open>\<open>x || 0\<close> on a number: NaN and zero give \<open>0\<close>.\<close>

definition or_zero :: "jsnum \<Rightarrow> jsnum" where
  "or_zero x = (if x = NaN \<or> x = Fin 0 then Fin 0 else x)"

text \<open>\<open>isNaN(n) ? 0 : n\<close>.\<close>

definition nan_zero :: "jsnum \<Rightarrow> jsnum" where
  "nan_zero x = (if x = NaN then Fin 0 else x)"

text \<open>\<open>n *= k\<close> for a positive finite factor \<open>k\<close>.\<close>

fun scale :: "jsnum \<Rightarrow> rat \<Rightarrow> jsnum" where
  "scale (Fin q) k = round64 (q * k)"
| "scale x k = x"

text \<open>
  The match of \<open>/^([0-9\.\-]+)\s*([bBmMtT])?$/\<close>: the first group takes every leading
  character of its class (no character of the class can start what follows it), white
  space follows, and the rest is empty or one suffix letter. The result is the two
  groups, the second empty when it did not take part.
\<close>

definition is_numch :: "char \<Rightarrow> bool" where
  "is_numch c = (c \<in> set ''0123456789.-'')"

definition match_number :: "string \<Rightarrow> (string \<times> string) option" where
  "match_number s =
     (let g1 = takeWhile is_numch s;
          r = dropWhile is_space (dropWhile is_numch s)
      in if g1 = [] then None
         else if r = [] then Some (g1, [])
         else if length r = 1 \<and> hd r \<in> set ''bBmMtT'' then Some (g1, r)
         else None)"

text \<open>
  \<open>parseNumber\<close>. Nothing in its \<open>try\<close> block throws on a cell, so the \<open>catch\<close> branch is
  never taken.
\<close>

definition parseNumber :: "(rat \<Rightarrow> string) \<Rightarrow> cell \<Rightarrow> jsnum" where
  "parseNumber nts v =
     (if \<not> truthy v \<and> v \<noteq> Number (Fin 0) then Fin 0
      else
        let s = trim (filter (\<lambda>c. c \<noteq> CHR ''$'' \<and> c \<noteq> CHR '','') (to_string nts v))
        in case match_number s of
             Some (m1, m2) \<Rightarrow>
               let n = parseFloat m1;
                   suf = toLowerCase m2;
                   n = (if suf = ''b'' then scale n (10 ^ 9) else n);
                   n = (if suf = ''m'' then scale n (10 ^ 6) else n);
                   n = (if suf = ''t'' then scale n (10 ^ 12) else n)
               in n
           | None \<Rightarrow> or_zero (parseFloat s))"

definition parsePercent :: "(rat \<Rightarrow> string) \<Rightarrow> cell \<Rightarrow> jsnum" where
  "parsePercent nts v =
     (if v = Undefined \<or> v = Null \<or> v = Str [] then Fin 0
      else
        let s = trim (replace_first (CHR ''%'') (to_string nts v));
            n = parseFloat s
        in nan_zero n)"

definition capitalize :: "string \<Rightarrow> string" where
  "capitalize s = (case s of [] \<Rightarrow> [] | c # r \<Rightarrow> toUpper c # r)"

definition yes_set :: "string list" where
  "yes_set = [''yes'', ''y'', ''true'', ''1'', ''reduced'', ''reduction'']"

definition no_set :: "string list" where
  "no_set = [''no'', ''n'', ''false'', ''0'', ''unchanged'']"

definition normalizeYesNo :: "(rat \<Rightarrow> string) \<Rightarrow> cell \<Rightarrow> string" where
  "normalizeYesNo nts v =
     (if \<not> truthy v then ''Unknown''
      else
        let s = toLowerCase (to_string nts v)
        in if list_ex (\<lambda>x. includes_str s x) yes_set then ''Yes''
           else if list_ex (\<lambda>x. includes_str s x) no_set then ''No''
           else capitalize s)"

section \<open>Rows as objects\<close>

text \<open>
  An object created by \<open>{}\<close>: its own properties, and whether its prototype is still
  \<open>Object.prototype\<close>.
\<close>

record jsobj =
  props :: "string \<Rightarrow> cell option"
  proto :: bool

definition empty_obj :: jsobj where
  "empty_obj = \<lparr>props = Map.empty, proto = True\<rparr>"

text \<open>
  \<open>obj[k] = v\<close>. Every key becomes an own property but \<open>__proto__\<close>, which on an object
  that has \<open>Object.prototype\<close> is the inherited accessor: its setter takes the prototype
  away when the value is \<open>null\<close> and ignores any other cell, and no own property arises.
\<close>

definition obj_set :: "jsobj \<Rightarrow> string \<Rightarrow> cell \<Rightarrow> jsobj" where
  "obj_set obj k v =
     (if k = ''__proto__'' \<and> proto obj
      then (if v = Null then obj\<lparr>proto := False\<rparr> else obj)
      else obj\<lparr>props := (props obj)(k \<mapsto> v)\<rparr>)"

text \<open>
  \<open>obj[k]\<close> for a key that \<open>Object.prototype\<close> does not define, as are all the keys the
  component reads: the own property, or \<open>undefined\<close>.
\<close>

definition obj_get :: "jsobj \<Rightarrow> string \<Rightarrow> cell" where
  "obj_get obj k = (case props obj k of Some v \<Rightarrow> v | None \<Rightarrow> Undefined)"

text \<open>\<open>r[i] !== undefined ? r[i] : ""\<close>; reading past the end of the row gives \<open>undefined\<close>.\<close>

definition cell_or_empty :: "cell list \<Rightarrow> nat \<Rightarrow> cell" where
  "cell_or_empty r i = (if i < length r \<and> r ! i \<noteq> Undefined then r ! i else Str [])"

text \<open>The \<open>for\<close> loop of \<open>parseValues\<close>, from index \<open>i\<close> on.\<close>

function fill_row :: "string list \<Rightarrow> cell list \<Rightarrow> nat \<Rightarrow> jsobj \<Rightarrow> jsobj" where
  "fill_row headers r i obj =
     (if i < length headers
      then fill_row headers r (Suc i) (obj_set obj (headers ! i) (cell_or_empty r i))
      else obj)"
  by pat_completeness auto
termination
  by (relation "measure (\<lambda>(headers, r, i, obj). length headers - i)") auto

declare fill_row.simps [simp del]

text \<open>
  \<open>parseValues\<close>: \<open>None\<close> is a response without \<open>values\<close>, which the sheet API sends for
  an empty range.
\<close>

definition parseValues :: "(rat \<Rightarrow> string) \<Rightarrow> cell list list option \<Rightarrow> jsobj list" where
  "parseValues nts values =
     (case values of
        None \<Rightarrow> []
      | Some [] \<Rightarrow> []
      | Some (h # rows) \<Rightarrow>
          let headers = map (\<lambda>c. trim (to_string nts c)) h
          in map (\<lambda>r. fill_row headers r 0 empty_obj) rows)"

section \<open>Chart entries\<close>

record entry =
  name :: cell
  marketCap :: jsnum
  revenueGrowth :: jsnum
  profitGrowth :: jsnum
  marginExpansion :: jsnum
  sector :: cell
  revenueStream :: cell
  debtReduced :: string

text \<open>The default name, an em dash (U+2014).\<close>

definition em_dash :: string where
  "em_dash = [CHR 0xE2, CHR 0x80, CHR 0x94]"

definition chartEntry :: "(rat \<Rightarrow> string) \<Rightarrow> jsobj \<Rightarrow> entry" where
  "chartEntry nts r =
     \<lparr>name = jor (jor (jor (jor (obj_get r ''Company name'') (obj_get r ''Company Name''))
                (obj_get r ''Name'')) (obj_get r ''company'')) (Str em_dash),
      marketCap = parseNumber nts (obj_get r ''Market cap''),
      revenueGrowth = parsePercent nts (obj_get r ''Revenue growth Percentage (YoY)''),
      profitGrowth = parsePercent nts (obj_get r ''Profit Growth Percentage (YoY)''),
      marginExpansion = parsePercent nts (obj_get r ''Margin Expansion''),
      sector = jor (jor (obj_get r ''Which Sector this Company'') (obj_get r ''Sector''))
                 (Str ''Other''),
      revenueStream = jor (obj_get r ''Main Revenue Stream'') (Str []),
      debtReduced = normalizeYesNo nts (obj_get r ''Debt Reduced Or Not'')\<rparr>"

definition chartData :: "(rat \<Rightarrow> string) \<Rightarrow> jsobj list \<Rightarrow> entry list" where
  "chartData nts rows = map (chartEntry nts) rows"

section \<open>Summary and ranking\<close>

text \<open>
  The exact sum and difference of two numbers, with the infinities and NaN as IEEE 754
  has them.
\<close>

fun jadd :: "jsnum \<Rightarrow> jsnum \<Rightarrow> jsnum" where
  "jadd NaN y = NaN"
| "jadd x NaN = NaN"
| "jadd (Fin a) (Fin b) = Fin (a + b)"
| "jadd PosInf NegInf = NaN"
| "jadd NegInf PosInf = NaN"
| "jadd PosInf y = PosInf"
| "jadd x PosInf = PosInf"
| "jadd NegInf y = NegInf"
| "jadd x NegInf = NegInf"

fun jneg :: "jsnum \<Rightarrow> jsnum" where
  "jneg NaN = NaN"
| "jneg PosInf = NegInf"
| "jneg NegInf = PosInf"
| "jneg (Fin a) = Fin (- a)"

definition jsub :: "jsnum \<Rightarrow> jsnum \<Rightarrow> jsnum" where
  "jsub x y = jadd x (jneg y)"

text \<open>\<open>x + y\<close>, and \<open>x / n\<close> for a positive count \<open>n\<close>: the exact result, rounded.\<close>

definition fadd :: "jsnum \<Rightarrow> jsnum \<Rightarrow> jsnum" where
  "fadd x y = (case jadd x y of Fin q \<Rightarrow> round64 q | z \<Rightarrow> z)"

fun fdiv :: "jsnum \<Rightarrow> nat \<Rightarrow> jsnum" where
  "fdiv (Fin a) n = round64 (a / of_nat n)"
| "fdiv x n = x"

text \<open>
  \<open>totals\<close>, without its \<open>sectors\<close> field, which is independent of the other three.
\<close>

record totals_rec =
  count :: nat
  avgRevenueGrowth :: jsnum
  avgProfitGrowth :: jsnum

definition totals :: "entry list \<Rightarrow> totals_rec" where
  "totals cd =
     (let n = length cd
      in \<lparr>count = n,
          avgRevenueGrowth =
            (if n \<noteq> 0
             then fdiv (foldl (\<lambda>a b. fadd a (or_zero (revenueGrowth b))) (Fin 0) cd) n
             else Fin 0),
          avgProfitGrowth =
            (if n \<noteq> 0
             then fdiv (foldl (\<lambda>a b. fadd a (or_zero (profitGrowth b))) (Fin 0) cd) n
             else Fin 0)\<rparr>)"

text \<open>
  \<open>Array.prototype.sort\<close> with a comparator is stable: \<open>a\<close> goes after \<open>b\<close> only when the
  comparator's value for \<open>(a, b)\<close> is positive; a zero or NaN value leaves the two in
  their order. The model inserts each element, from the last, before the first element
  it need not follow. The order that the language leaves open for an inconsistent
  comparator is fixed to this one.
\<close>

fun jpos :: "jsnum \<Rightarrow> bool" where
  "jpos (Fin a) = (0 < a)"
| "jpos PosInf = True"
| "jpos x = False"

fun insert_by :: "('a \<Rightarrow> 'a \<Rightarrow> jsnum) \<Rightarrow> 'a \<Rightarrow> 'a list \<Rightarrow> 'a list" where
  "insert_by cmp x [] = [x]"
| "insert_by cmp x (y # ys) =
     (if jpos (cmp x y) then y # insert_by cmp x ys else x # y # ys)"

definition js_sort :: "('a \<Rightarrow> 'a \<Rightarrow> jsnum) \<Rightarrow> 'a list \<Rightarrow> 'a list" where
  "js_sort cmp xs = foldr (insert_by cmp) xs []"

text \<open>
  The comparator \<open>(a,b) => b.marginExpansion - a.marginExpansion\<close>. Only the sign of its
  value is used, and the rounded difference of two binary64 numbers has the sign of
  the exact one, so the difference is taken exactly.
\<close>

definition cmp_margin :: "entry \<Rightarrow> entry \<Rightarrow> jsnum" where
  "cmp_margin a b = jsub (marginExpansion b) (marginExpansion a)"

text \<open>
  \<open>chartData.sort(cmp).slice(0, n)\<close>: \<open>sort\<close> sorts the array it is called on and returns
  that same array. The result is the content of \<open>chartData\<close> after the call and the
  slice that is rendered. The component's list takes \<open>n = 5\<close>.
\<close>

definition sort_slice :: "nat \<Rightarrow> entry list \<Rightarrow> entry list \<times> entry list" where
  "sort_slice n cd = (let s = js_sort cmp_margin cd in (s, take n s))"

definition marginExpansionTop5 :: "entry list \<Rightarrow> entry list \<times> entry list" where
  "marginExpansionTop5 cd = sort_slice 5 cd"

section \<open>Notions the properties are stated with\<close>

text \<open>\<open>x\<close> occurs in \<open>s\<close> as a contiguous substring.\<close>

definition substring_of :: "string \<Rightarrow> string \<Rightarrow> bool" where
  "substring_of x s = (\<exists>a b. s = a @ x @ b)"

text \<open>
  The value of the first key of a priority list whose value in the object is truthy, and
  a default when there is none.
\<close>

definition first_truthy :: "jsobj \<Rightarrow> string list \<Rightarrow> cell \<Rightarrow> cell" where
  "first_truthy r ks d =
     (case find (\<lambda>k. truthy (obj_get r k)) ks of Some k \<Rightarrow> obj_get r k | None \<Rightarrow> d)"

text \<open>
  The percent coercion as the specification words it, for comparison with
  \<open>parsePercent\<close>: a trailing \<open>%\<close> is stripped if present, the remainder is parsed as a
  float, and unparseable input yields \<open>0\<close>.
\<close>

definition coercePercent_spec :: "string \<Rightarrow> jsnum" where
  "coercePercent_spec s =
     nan_zero (parseFloat (if s \<noteq> [] \<and> last s = CHR ''%'' then butlast s else s))"

text \<open>The order of numbers; NaN is comparable with nothing.\<close>

fun jle :: "jsnum \<Rightarrow> jsnum \<Rightarrow> bool" where
  "jle NaN y = False"
| "jle x NaN = False"
| "jle NegInf y = True"
| "jle x PosInf = True"
| "jle (Fin a) (Fin b) = (a \<le> b)"
| "jle x y = False"

text \<open>A list of entries in descending order of margin expansion.\<close>

definition descending :: "entry list \<Rightarrow> bool" where
  "descending es = sorted_wrt (\<lambda>a b. jle (marginExpansion b) (marginExpansion a)) es"







text \<open>Entries and the grid of the end-to-end scenario, for the concrete cases.\<close>

definition example_entry :: "string \<Rightarrow> rat \<Rightarrow> rat \<Rightarrow> rat \<Rightarrow> entry" where
  "example_entry nm rg pg me =
     \<lparr>name = Str nm, marketCap = Fin 0, revenueGrowth = Fin rg, profitGrowth = Fin pg,
      marginExpansion = Fin me, sector = Str ''Other'', revenueStream = Str [],
      debtReduced = ''Unknown''\<rparr>"

definition scenario_grid :: "cell list list" where
  "scenario_grid =
     [[Str ''Company name'', Str ''Market cap'', Str ''Revenue growth Percentage (YoY)'',
       Str ''Debt Reduced Or Not''],
      [Str ''Acme'', Str ''1.2B'', Str ''15%'', Str ''Reduced''],
      [Str ''Globex'', Str ''$500M'', Str ''-3.5%'', Str ''Unchanged'']]"

section \<open>Evaluation on concrete cells\<close>

lemma floor_rat_numeral_div:
  "\<lfloor>(numeral a :: rat) / numeral b\<rfloor> = numeral a div numeral b"
  using floor_divide_of_int_eq[of "numeral a" "numeral b", where ?'a = rat] by simp

lemma floor_rat_one_div: "\<lfloor>1 / (numeral b :: rat)\<rfloor> = 1 div numeral b"
  using floor_divide_of_int_eq[of 1 "numeral b", where ?'a = rat] by simp

lemmas round_defs =
  round64_def round_abs_def round_even_def norm_down.simps norm_up.simps
  floor_rat_numeral_div floor_rat_one_div Let_def

text \<open>
  Rounding at work: a decimal fraction, ties to the even neighbour, overflow, and
  the subnormal range.
\<close>

lemma round64_examples:
  "round64 (1 / 10) = Fin (3602879701896397 / 36028797018963968)"
  "round64 (2 ^ 53 + 1) = Fin (2 ^ 53)"
  "round64 (2 ^ 53 + 3) = Fin (2 ^ 53 + 4)"
  "round64 (- (2 ^ 53 + 3)) = Fin (- (2 ^ 53 + 4))"
  "round64 (2 ^ 1023 + 2 ^ 1023) = PosInf"
  "round64 (1 / 2 ^ 1075) = Fin 0"
  "round64 (3 / 2 ^ 1075) = Fin (1 / 2 ^ 1073)"
  by (simp_all add: round_defs)

lemmas eval_defs =
  round_defs parseFloat_def str_decimal_def is_digit_def digits_val_def digit_val_def
  exponent_part_def is_space_def trim_def match_number_def is_numch_def toLowerCase_def toLower_def toUpper_def
  replace_first_def or_zero_def nan_zero_def capitalize_def yes_set_def no_set_def Let_def

lemmas row_defs =
  parseValues_def fill_row.simps obj_set_def obj_get_def empty_obj_def cell_or_empty_def

lemmas entry_defs =
  chartData_def chartEntry_def jor_def parseNumber_def parsePercent_def normalizeYesNo_def

section \<open>Substrings\<close>

lemma startsWith_iff: "startsWith s x \<longleftrightarrow> (\<exists>b. s = x @ b)"
  by (induction s x rule: startsWith.induct) auto

lemma includes_str_iff: "includes_str s x \<longleftrightarrow> substring_of x s"
  unfolding substring_of_def
proof (induction s)
  case Nil
  then show ?case by simp
next
  case (Cons c s)
  show ?case
  proof
    assume "includes_str (c # s) x"
    then consider "startsWith (c # s) x" | "includes_str s x" by auto
    then show "\<exists>a b. c # s = a @ x @ b"
    proof cases
      case 1
      then obtain b where "c # s = x @ b" by (auto simp: startsWith_iff)
      then have "c # s = [] @ x @ b" by simp
      then show ?thesis by blast
    next
      case 2
      then obtain a b where "s = a @ x @ b" using Cons.IH by blast
      then have "c # s = (c # a) @ x @ b" by simp
      then show ?thesis by blast
    qed
  next
    assume "\<exists>a b. c # s = a @ x @ b"
    then obtain a b where ab: "c # s = a @ x @ b" by blast
    show "includes_str (c # s) x"
    proof (cases a)
      case Nil
      with ab have "startsWith (c # s) x" by (auto simp: startsWith_iff)
      then show ?thesis by simp
    next
      case (Cons a0 a')
      with ab have "s = a' @ x @ b" by simp
      then have "includes_str s x" using Cons.IH by blast
      then show ?thesis by simp
    qed
  qed
qed

section \<open>The numeric coercions\<close>

text \<open>
  White space after the text does not change what \<open>parseFloat\<close> reads, so the \<open>trim\<close>
  before it is immaterial.
\<close>

lemma space_not_digit: "is_space c \<Longrightarrow> \<not> is_digit c"
  by (auto simp: is_space_def is_digit_def)

lemma startsWith_spaces:
  "\<forall>c \<in> set ws. is_space c \<Longrightarrow> \<forall>c \<in> set x. \<not> is_space c \<Longrightarrow> x \<noteq> [] \<Longrightarrow>
   startsWith (t @ ws) x = startsWith t x"
proof (induction t x rule: startsWith.induct)
  case (1 s)
  then show ?case by simp
next
  case (2 x xs)
  then show ?case by (cases ws) auto
next
  case (3 c s x xs)
  then show ?case by (cases xs) auto
qed

lemma takeWhile_digit_spaces:
  "\<forall>c \<in> set ws. is_space c \<Longrightarrow> takeWhile is_digit (u @ ws) = takeWhile is_digit u"
  by (induction u) (auto simp: takeWhile_eq_Nil_iff space_not_digit)

lemma dropWhile_digit_spaces:
  "\<forall>c \<in> set ws. is_space c \<Longrightarrow> dropWhile is_digit (u @ ws) = dropWhile is_digit u @ ws"
  by (induction u) (auto simp: dropWhile_eq_self_iff space_not_digit)

lemma tl_append_startsWith: "startsWith t x \<Longrightarrow> x \<noteq> [] \<Longrightarrow> tl (t @ ws) = tl t @ ws"
  by (cases t; cases x) auto

lemma exponent_part_spaces:
  assumes "\<forall>c \<in> set ws. is_space c"
  shows "exponent_part (r @ ws) = exponent_part r"
proof (cases r)
  case Nil
  then show ?thesis using assms
    by (cases ws) (auto simp: exponent_part_def is_space_def)
next
  case (Cons c r1)
  show ?thesis
  proof (cases r1)
    case Nil
    then show ?thesis using assms Cons
      by (cases ws) (auto simp: exponent_part_def is_space_def is_digit_def digits_val_def)
  next
    case (Cons d r2)
    have "takeWhile is_digit (d # r2 @ ws) = takeWhile is_digit (d # r2)"
      using takeWhile_digit_spaces[OF assms, of "d # r2"] by simp
    then show ?thesis using assms Cons \<open>r = c # r1\<close>
      by (simp add: exponent_part_def takeWhile_digit_spaces)
  qed
qed

lemma str_decimal_spaces:
  assumes ws: "\<forall>c \<in> set ws. is_space c"
  shows "str_decimal (u @ ws) = str_decimal u"
proof -
  define r1 where "r1 = dropWhile is_digit u"
  have ip: "takeWhile is_digit (u @ ws) = takeWhile is_digit u"
    using ws by (rule takeWhile_digit_spaces)
  have r1: "dropWhile is_digit (u @ ws) = r1 @ ws"
    unfolding r1_def using ws by (rule dropWhile_digit_spaces)
  have dot: "startsWith (r1 @ ws) ''.'' = startsWith r1 ''.''"
    using ws by (intro startsWith_spaces) (simp_all add: is_space_def)
  have fp: "(if startsWith r1 ''.'' then takeWhile is_digit (tl (r1 @ ws)) else [])
      = (if startsWith r1 ''.'' then takeWhile is_digit (tl r1) else [])"
    using ws by (simp add: tl_append_startsWith takeWhile_digit_spaces)
  have r2: "(if startsWith r1 ''.'' then dropWhile is_digit (tl (r1 @ ws)) else r1 @ ws)
      = (if startsWith r1 ''.'' then dropWhile is_digit (tl r1) else r1) @ ws"
    using ws by (simp add: tl_append_startsWith dropWhile_digit_spaces)
  show ?thesis
    unfolding str_decimal_def Let_def ip r1 dot fp r2 exponent_part_spaces[OF ws]
    unfolding r1_def ..
qed

lemma parseFloat_spaces:
  assumes ws: "\<forall>c \<in> set ws. is_space c" and t: "dropWhile is_space t = t"
  shows "parseFloat (t @ ws) = parseFloat t"
proof (cases t)
  case Nil
  have e: "dropWhile is_space ws = []" using ws by simp
  show ?thesis unfolding Nil parseFloat_def append_Nil e by simp
next
  case (Cons c t')
  then have c: "\<not> is_space c" using t by (metis hd_dropWhile list.sel(1) list.simps(3))
  then have d: "dropWhile is_space (t @ ws) = t @ ws" using Cons by simp
  have sw: "\<And>u x. \<forall>c \<in> set x. \<not> is_space c \<Longrightarrow> x \<noteq> [] \<Longrightarrow> startsWith (u @ ws) x = startsWith u x"
    using ws by (rule startsWith_spaces)
  have m: "startsWith (t @ ws) ''-'' = startsWith t ''-''"
    and p: "startsWith (t @ ws) ''+'' = startsWith t ''+''"
    by (simp_all add: sw is_space_def)
  define s1 where "s1 = (if startsWith t ''-'' \<or> startsWith t ''+'' then tl t else t)"
  have s1: "(if startsWith t ''-'' \<or> startsWith t ''+'' then tl (t @ ws) else t @ ws) = s1 @ ws"
    unfolding s1_def by (auto simp: tl_append_startsWith)
  have inf: "startsWith (s1 @ ws) ''Infinity'' = startsWith s1 ''Infinity''"
    by (simp add: sw is_space_def)
  show ?thesis
    unfolding parseFloat_def Let_def d t m p s1 inf str_decimal_spaces[OF ws]
    unfolding s1_def ..
qed

lemma trim_decomp:
  "\<exists>ws. dropWhile is_space s = trim s @ ws \<and> (\<forall>c \<in> set ws. is_space c)"
proof -
  let ?s = "dropWhile is_space s"
  have "rev ?s = takeWhile is_space (rev ?s) @ dropWhile is_space (rev ?s)" by simp
  then have "?s = rev (dropWhile is_space (rev ?s)) @ rev (takeWhile is_space (rev ?s))"
    by (metis rev_append rev_rev_ident)
  moreover have "\<forall>c \<in> set (rev (takeWhile is_space (rev ?s))). is_space c"
    by (auto dest: set_takeWhileD)
  ultimately show ?thesis unfolding trim_def by blast
qed

lemma dropWhile_trim: "dropWhile is_space (trim s) = trim s"
proof (cases "trim s")
  case Nil
  then show ?thesis by simp
next
  case (Cons c t)
  obtain ws where d: "dropWhile is_space s = trim s @ ws" using trim_decomp by blast
  then have "hd (dropWhile is_space s) = c" using Cons by simp
  moreover have "dropWhile is_space s \<noteq> []" using d Cons by simp
  ultimately have "\<not> is_space c" using hd_dropWhile by metis
  then show ?thesis using Cons by simp
qed

lemma parseFloat_dropWhile: "parseFloat (dropWhile is_space s) = parseFloat s"
  by (simp add: parseFloat_def)

lemma parseFloat_trim: "parseFloat (trim s) = parseFloat s"
proof -
  obtain ws where d: "dropWhile is_space s = trim s @ ws" and ws: "\<forall>c \<in> set ws. is_space c"
    using trim_decomp by blast
  have "parseFloat s = parseFloat (trim s @ ws)"
    using parseFloat_dropWhile[of s] d by simp
  also have "\<dots> = parseFloat (trim s)"
    using ws dropWhile_trim by (rule parseFloat_spaces)
  finally show ?thesis by simp
qed

lemma parsePercent_not_NaN: "parsePercent nts v \<noteq> NaN"
  by (simp add: parsePercent_def nan_zero_def Let_def)

lemma parsePercent_Str:
  "parsePercent nts (Str s) = nan_zero (parseFloat (remove1 (CHR ''%'') s))"
proof (cases "s = []")
  case True
  then show ?thesis by (simp add: parsePercent_def eval_defs)
next
  case False
  then show ?thesis
    by (simp add: parsePercent_def replace_first_def Let_def parseFloat_trim)
qed

text \<open>
  Every cell but \<open>undefined\<close>, \<open>null\<close> and the empty string is converted to a string,
  loses the first \<open>%\<close> of that string and is parsed.
\<close>

lemma parsePercent_cell:
  "c \<noteq> Undefined \<Longrightarrow> c \<noteq> Null \<Longrightarrow> c \<noteq> Str [] \<Longrightarrow>
   parsePercent nts c = nan_zero (parseFloat (remove1 (CHR ''%'') (to_string nts c)))"
  by (simp add: parsePercent_def replace_first_def Let_def parseFloat_trim)

lemma remove1_first: "c \<notin> set a \<Longrightarrow> remove1 c (a @ c # b) = a @ b"
  by (induction a) auto

text \<open>
  C1. The claim: both numeric coercions return \<open>0\<close> on every parse failure and never NaN.
  \<open>parseNumber\<close> breaks it. A cell holding only a dash matches the pattern of
  \<open>parseNumber\<close>, whose first group admits \<open>-\<close> and \<open>.\<close> in any number and order;
  \<open>parseFloat\<close> of the group is NaN, and the matching branch returns it without the
  \<open>|| 0\<close> that guards the other branch. The entry's \<open>marketCap\<close> is then NaN.
\<close>

theorem parseNumber_dash_is_NaN:
  "parseNumber nts (Str ''-'') = NaN
   \<and> map marketCap (chartData nts (parseValues nts (Some [[Str ''Market cap''], [Str ''-'']])))
       = [NaN]"
  by (simp add: entry_defs row_defs eval_defs)

text \<open>
  C6, as amended. \<open>parsePercent\<close> never returns NaN; it yields \<open>0\<close> for \<open>undefined\<close>,
  \<open>null\<close>, the empty string and every text that \<open>parseFloat\<close> cannot read; \<open>12.5%\<close>
  gives \<open>12.5\<close>. The \<open>%\<close> it removes is the first one of the text, wherever it stands:
  a text without \<open>%\<close> is parsed as it is, and a text with one is parsed with its
  first \<open>%\<close> taken out. Every other cell (a number, a boolean) is converted to a string
  first and treated as that text.
\<close>

theorem parsePercent_first_percent:
  "parsePercent nts v \<noteq> NaN
   \<and> parsePercent nts Undefined = Fin 0
   \<and> parsePercent nts Null = Fin 0
   \<and> parsePercent nts (Str []) = Fin 0
   \<and> parsePercent nts (Str ''12.5%'') = Fin (25 / 2)
   \<and> parsePercent nts (Str ''n/a'') = Fin 0
   \<and> (\<forall>s. CHR ''%'' \<notin> set s \<longrightarrow> parsePercent nts (Str s) = nan_zero (parseFloat s))
   \<and> (\<forall>a b. CHR ''%'' \<notin> set a \<longrightarrow>
          parsePercent nts (Str (a @ CHR ''%'' # b)) = nan_zero (parseFloat (a @ b)))
   \<and> (\<forall>c. c \<noteq> Undefined \<and> c \<noteq> Null \<and> c \<noteq> Str [] \<longrightarrow>
          parsePercent nts c = nan_zero (parseFloat (remove1 (CHR ''%'') (to_string nts c))))"
proof -
  have falsy: "parsePercent nts Undefined = Fin 0" "parsePercent nts Null = Fin 0"
    "parsePercent nts (Str []) = Fin 0"
    by (simp_all add: parsePercent_def)
  have ex: "parsePercent nts (Str ''12.5%'') = Fin (25 / 2)"
    "parsePercent nts (Str ''n/a'') = Fin 0"
    by (simp_all add: parsePercent_def eval_defs)
  have none: "\<forall>s. CHR ''%'' \<notin> set s \<longrightarrow> parsePercent nts (Str s) = nan_zero (parseFloat s)"
    by (simp add: parsePercent_Str remove1_idem)
  have first: "\<forall>a b. CHR ''%'' \<notin> set a \<longrightarrow>
      parsePercent nts (Str (a @ CHR ''%'' # b)) = nan_zero (parseFloat (a @ b))"
    by (simp add: parsePercent_Str remove1_first)
  have every: "\<forall>c. c \<noteq> Undefined \<and> c \<noteq> Null \<and> c \<noteq> Str [] \<longrightarrow>
      parsePercent nts c = nan_zero (parseFloat (remove1 (CHR ''%'') (to_string nts c)))"
    by (simp add: parsePercent_cell)
  show ?thesis
    using parsePercent_not_NaN[of nts v] falsy ex none first every by blast
qed

theorem parsePercent_first_percent_witness:
  "CHR ''%'' \<notin> set ''5'' \<and> parsePercent (\<lambda>q. ''12.5'') (Str ''5%5'') = Fin 55
   \<and> Number (Fin (25 / 2)) \<noteq> Str []
   \<and> parsePercent (\<lambda>q. ''12.5'') (Number (Fin (25 / 2))) = Fin (25 / 2)"
proof -
  have h: "CHR ''%'' \<notin> set ''5''" by simp
  have "parsePercent (\<lambda>q. ''12.5'') (Str (''5'' @ CHR ''%'' # ''5'')) =
      nan_zero (parseFloat (''5'' @ ''5''))"
    using parsePercent_first_percent[of "\<lambda>q. ''12.5''" Null] h by blast
  then have a: "parsePercent (\<lambda>q. ''12.5'') (Str ''5%5'') = Fin 55"
    by (simp add: eval_defs)
  have "parsePercent (\<lambda>q. ''12.5'') (Number (Fin (25 / 2))) =
      nan_zero (parseFloat (remove1 (CHR ''%'') (to_string (\<lambda>q. ''12.5'') (Number (Fin (25 / 2))))))"
    using parsePercent_first_percent[of "\<lambda>q. ''12.5''" Null] by blast
  then have b: "parsePercent (\<lambda>q. ''12.5'') (Number (Fin (25 / 2))) = Fin (25 / 2)"
    by (simp add: eval_defs)
  show ?thesis using a b by simp
qed

text \<open>
  The claim as stated fails: in \<open>%5\<close> the \<open>%\<close> is not trailing, and \<open>parsePercent\<close>
  strips it and returns \<open>5\<close>, where stripping only a trailing \<open>%\<close> leaves a text that
  does not parse and gives \<open>0\<close>.
\<close>

theorem parsePercent_nontrailing_counterexample:
  "\<forall>nts. parsePercent nts (Str ''%5'') = Fin 5 \<and> coercePercent_spec ''%5'' = Fin 0"
  by (simp add: parsePercent_def coercePercent_spec_def eval_defs)

section \<open>Yes and no\<close>

lemma normalizeYesNo_truthy:
  "truthy v \<Longrightarrow>
   normalizeYesNo nts v =
     (if \<exists>x \<in> set yes_set. substring_of x (toLowerCase (to_string nts v)) then ''Yes''
      else if \<exists>x \<in> set no_set. substring_of x (toLowerCase (to_string nts v)) then ''No''
      else capitalize (toLowerCase (to_string nts v)))"
  by (simp add: normalizeYesNo_def Let_def list_ex_iff includes_str_iff)

lemma normalizeYesNo_not_truthy: "\<not> truthy v \<Longrightarrow> normalizeYesNo nts v = ''Unknown''"
  by (simp add: normalizeYesNo_def)

text \<open>
  C2, as amended. \<open>normalizeYesNo\<close> maps \<open>Reduced\<close> to \<open>Yes\<close>, \<open>Unchanged\<close> to \<open>No\<close> and
  the empty string to \<open>Unknown\<close>. \<open>Partially\<close> gives \<open>Yes\<close>, since its lower-cased text
  contains the token \<open>y\<close> of the yes set. A truthy value is converted to a string and
  lower-cased; the result is \<open>Yes\<close> when a token of the yes set is a substring of it,
  else \<open>No\<close> when a token of the no set is, and else the lower-cased text with its first
  character in upper case, so \<open>PARTIAL\<close> gives \<open>Partial\<close>.
\<close>

theorem normalizeYesNo_cases:
  "normalizeYesNo nts (Str ''Reduced'') = ''Yes''
   \<and> normalizeYesNo nts (Str ''Unchanged'') = ''No''
   \<and> normalizeYesNo nts (Str []) = ''Unknown''
   \<and> normalizeYesNo nts (Str ''Partially'') = ''Yes''
   \<and> normalizeYesNo nts (Str ''PARTIAL'') = ''Partial''
   \<and> (\<forall>v. truthy v \<longrightarrow>
          normalizeYesNo nts v =
            (if \<exists>x \<in> set yes_set. substring_of x (toLowerCase (to_string nts v))
             then ''Yes''
             else if \<exists>x \<in> set no_set. substring_of x (toLowerCase (to_string nts v))
             then ''No''
             else capitalize (toLowerCase (to_string nts v))))"
proof -
  have ex: "normalizeYesNo nts (Str ''Reduced'') = ''Yes''"
    "normalizeYesNo nts (Str ''Unchanged'') = ''No''"
    "normalizeYesNo nts (Str []) = ''Unknown''"
    "normalizeYesNo nts (Str ''Partially'') = ''Yes''"
    "normalizeYesNo nts (Str ''PARTIAL'') = ''Partial''"
    by (simp_all add: normalizeYesNo_def eval_defs)
  show ?thesis
    using ex normalizeYesNo_truthy[of _ nts] by blast
qed

theorem normalizeYesNo_cases_witness:
  "truthy (Str ''Flat'') \<and> normalizeYesNo (\<lambda>q. []) (Str ''Flat'') = ''Flat''"
proof -
  have t: "truthy (Str ''Flat'')" by simp
  have "normalizeYesNo (\<lambda>q. []) (Str ''Flat'') =
      (if \<exists>x \<in> set yes_set. substring_of x (toLowerCase (to_string (\<lambda>q. []) (Str ''Flat'')))
       then ''Yes''
       else if \<exists>x \<in> set no_set. substring_of x (toLowerCase (to_string (\<lambda>q. []) (Str ''Flat'')))
       then ''No''
       else capitalize (toLowerCase (to_string (\<lambda>q. []) (Str ''Flat''))))"
    using normalizeYesNo_cases[of "\<lambda>q. []"] t by blast
  then show ?thesis
    by (simp add: includes_str_iff[symmetric] eval_defs)
qed

text \<open>
  The claim as stated fails at its own example: \<open>Partially\<close> is not passed through.
\<close>

theorem normalizeYesNo_Partially_counterexample:
  "\<forall>nts. normalizeYesNo nts (Str ''Partially'') \<noteq> ''Partially''"
  by (simp add: normalizeYesNo_def eval_defs)

text \<open>
  C10. The number \<open>0\<close> and \<open>false\<close> give \<open>Unknown\<close>, and so does every cell that is not
  truthy; the string \<open>0\<close> is truthy and gives \<open>No\<close>.
\<close>

theorem normalizeYesNo_falsy:
  "normalizeYesNo nts (Number (Fin 0)) = ''Unknown''
   \<and> normalizeYesNo nts (Bool False) = ''Unknown''
   \<and> normalizeYesNo nts (Str ''0'') = ''No''
   \<and> (\<forall>v. \<not> truthy v \<longrightarrow> normalizeYesNo nts v = ''Unknown'')"
proof -
  have "normalizeYesNo nts (Str ''0'') = ''No''"
    by (simp add: normalizeYesNo_def eval_defs)
  then show ?thesis
    by (simp add: normalizeYesNo_not_truthy)
qed

theorem normalizeYesNo_falsy_witness:
  "\<not> truthy (Number NaN) \<and> normalizeYesNo (\<lambda>q. []) (Number NaN) = ''Unknown''"
proof -
  have h: "\<not> truthy (Number NaN)" by simp
  then show ?thesis
    using normalizeYesNo_falsy[of "\<lambda>q. []"] by blast
qed

section \<open>Rows\<close>

lemma props_obj_set:
  "k \<noteq> ''__proto__'' \<Longrightarrow> props (obj_set obj k v) = (props obj)(k \<mapsto> v)"
  by (simp add: obj_set_def)

lemma props_obj_set_other: "k \<noteq> k' \<Longrightarrow> props (obj_set obj k' v) k = props obj k"
  by (simp add: obj_set_def)

text \<open>The loop leaves alone every key that is not among the headers still to come.\<close>

lemma fill_row_other:
  "k \<notin> set (drop i headers) \<Longrightarrow> props (fill_row headers r i obj) k = props obj k"
proof (induction headers r i obj rule: fill_row.induct)
  case (1 headers r i obj)
  show ?case
  proof (cases "i < length headers")
    case True
    then have d: "drop i headers = headers ! i # drop (Suc i) headers"
      by (simp add: Cons_nth_drop_Suc)
    with "1.prems" have nk: "k \<noteq> headers ! i" "k \<notin> set (drop (Suc i) headers)"
      by auto
    have "props (fill_row headers r (Suc i) (obj_set obj (headers ! i) (cell_or_empty r i))) k =
       props (obj_set obj (headers ! i) (cell_or_empty r i)) k"
      using "1.IH"[OF True nk(2)] .
    then show ?thesis
      using True nk by (subst fill_row.simps) (simp add: props_obj_set_other)
  next
    case False
    then show ?thesis by (subst fill_row.simps) simp
  qed
qed

text \<open>With no header \<open>__proto__\<close> to come, the keys added are the headers to come.\<close>

lemma fill_row_dom:
  "''__proto__'' \<notin> set (drop i headers) \<Longrightarrow>
   dom (props (fill_row headers r i obj)) = dom (props obj) \<union> set (drop i headers)"
proof (induction headers r i obj rule: fill_row.induct)
  case (1 headers r i obj)
  show ?case
  proof (cases "i < length headers")
    case True
    then have d: "drop i headers = headers ! i # drop (Suc i) headers"
      by (simp add: Cons_nth_drop_Suc)
    with "1.prems" have np: "headers ! i \<noteq> ''__proto__''"
      "''__proto__'' \<notin> set (drop (Suc i) headers)"
      by auto
    have "dom (props (fill_row headers r (Suc i) (obj_set obj (headers ! i) (cell_or_empty r i)))) =
       dom (props (obj_set obj (headers ! i) (cell_or_empty r i))) \<union> set (drop (Suc i) headers)"
      using "1.IH"[OF True np(2)] .
    then show ?thesis
      using True np d by (subst fill_row.simps) (auto simp: props_obj_set)
  next
    case False
    then show ?thesis by (subst fill_row.simps) simp
  qed
qed

text \<open>
  The value under a header is the row's cell in the header's last column, or the empty
  string where the row has no cell there.
\<close>

lemma fill_row_value:
  "''__proto__'' \<notin> set (drop i headers) \<Longrightarrow> i \<le> j \<Longrightarrow> j < length headers \<Longrightarrow>
   headers ! j \<notin> set (drop (Suc j) headers) \<Longrightarrow>
   props (fill_row headers r i obj) (headers ! j) = Some (cell_or_empty r j)"
proof (induction headers r i obj rule: fill_row.induct)
  case (1 headers r i obj)
  from "1.prems" have lt: "i < length headers" by simp
  then have d: "drop i headers = headers ! i # drop (Suc i) headers"
    by (simp add: Cons_nth_drop_Suc)
  with "1.prems" have np: "headers ! i \<noteq> ''__proto__''"
    "''__proto__'' \<notin> set (drop (Suc i) headers)"
    by auto
  show ?case
  proof (cases "i = j")
    case True
    have "props (fill_row headers r (Suc j) (obj_set obj (headers ! j) (cell_or_empty r j)))
          (headers ! j)
        = props (obj_set obj (headers ! j) (cell_or_empty r j)) (headers ! j)"
      using "1.prems"(4) by (rule fill_row_other)
    then show ?thesis
      using True lt np by (subst fill_row.simps) (simp add: props_obj_set)
  next
    case False
    then have "Suc i \<le> j" using "1.prems" by simp
    then have "props (fill_row headers r (Suc i) (obj_set obj (headers ! i) (cell_or_empty r i)))
          (headers ! j)
       = Some (cell_or_empty r j)"
      using "1.IH"[OF lt np(2) _ "1.prems"(3) "1.prems"(4)] by simp
    then show ?thesis using lt by (subst fill_row.simps) simp
  qed
qed

text \<open>
  What \<open>parseValues\<close> does for a header row without \<open>__proto__\<close>: one object per row after
  the header row, whose keys are the trimmed header names, each bound to the row's cell
  in that column; a row shorter than the header row gets the empty string for the cells
  it lacks, and the cells of a longer row past the header row are not read.
\<close>

lemma parseValues_records:
  assumes "headers = map (\<lambda>c. trim (to_string nts c)) h"
    and "''__proto__'' \<notin> set headers"
  shows "length (parseValues nts (Some (h # rows))) = length rows"
    and "i < length rows \<Longrightarrow>
         dom (props (parseValues nts (Some (h # rows)) ! i)) = set headers"
    and "i < length rows \<Longrightarrow> j < length headers \<Longrightarrow>
         headers ! j \<notin> set (drop (Suc j) headers) \<Longrightarrow>
         props (parseValues nts (Some (h # rows)) ! i) (headers ! j) =
           Some (if j < length (rows ! i) \<and> rows ! i ! j \<noteq> Undefined then rows ! i ! j
                 else Str [])"
proof -
  have pv: "parseValues nts (Some (h # rows)) = map (\<lambda>r. fill_row headers r 0 empty_obj) rows"
    using assms(1) by (simp add: parseValues_def)
  show "length (parseValues nts (Some (h # rows))) = length rows"
    by (simp add: pv)
  show "dom (props (parseValues nts (Some (h # rows)) ! i)) = set headers" if "i < length rows"
    using that assms(2) fill_row_dom[of 0 headers "rows ! i" empty_obj]
    by (simp add: pv empty_obj_def)
  show "props (parseValues nts (Some (h # rows)) ! i) (headers ! j) =
           Some (if j < length (rows ! i) \<and> rows ! i ! j \<noteq> Undefined then rows ! i ! j
                 else Str [])"
    if "i < length rows" "j < length headers" "headers ! j \<notin> set (drop (Suc j) headers)"
    using that assms(2) fill_row_value[of 0 headers j "rows ! i" empty_obj]
    by (simp add: pv cell_or_empty_def)
qed

text \<open>
  C7. The claim: the keys of every record are exactly the trimmed header names. It fails
  for a header cell \<open>__proto__\<close>: the assignment \<open>obj['__proto__'] = 'x'\<close> on an object
  made by \<open>{}\<close> runs the inherited setter, which ignores a string, so the record has no
  such key. For every other header row the claim holds (\<open>parseValues_records\<close>).
\<close>

theorem parseValues_proto_header:
  "map (\<lambda>r. dom (props r))
     (parseValues nts (Some [[Str ''__proto__'', Str ''Name''], [Str ''x'', Str ''Acme'']]))
   = [{''Name''}]"
  by (simp add: row_defs eval_defs)

section \<open>Entries\<close>

text \<open>
  C4, as amended. There is no function \<open>resolveField\<close>; an entry's \<open>name\<close>, \<open>sector\<close> and
  \<open>revenueStream\<close> are chains of \<open>||\<close>. Each is the value of the first alias, in the
  fixed priority order, whose value in the record is truthy, and a default when no alias
  has one: the em dash for \<open>name\<close>, \<open>Other\<close> for \<open>sector\<close> and the empty string for
  \<open>revenueStream\<close>.
\<close>

theorem chartEntry_aliases:
  "name (chartEntry nts r) =
     first_truthy r [''Company name'', ''Company Name'', ''Name'', ''company''] (Str em_dash)
   \<and> sector (chartEntry nts r) =
       first_truthy r [''Which Sector this Company'', ''Sector''] (Str ''Other'')
   \<and> revenueStream (chartEntry nts r) = first_truthy r [''Main Revenue Stream''] (Str [])"
  by (simp add: chartEntry_def first_truthy_def jor_def)

text \<open>
  The claim as stated fails: a row with none of the name aliases gets the em dash as
  its name, not the empty string.
\<close>

theorem chartData_name_default_counterexample:
  "\<forall>nts. map name (chartData nts (parseValues nts (Some [[Str ''Symbol''], [Str ''ACM'']])))
         = [Str em_dash]
       \<and> Str em_dash \<noteq> Str []"
  by (simp add: entry_defs row_defs eval_defs em_dash_def)

text \<open>
  C5. The grid of the scenario gives the two entries of the claim (with the defaults in
  the fields the claim does not list), and \<open>totals\<close> gives the count \<open>2\<close> and the average
  revenue growth \<open>5.75\<close>.
\<close>

theorem pipeline_scenario:
  "chartData nts (parseValues nts (Some scenario_grid)) =
     [\<lparr>name = Str ''Acme'', marketCap = Fin 1200000000, revenueGrowth = Fin 15,
       profitGrowth = Fin 0, marginExpansion = Fin 0, sector = Str ''Other'',
       revenueStream = Str [], debtReduced = ''Yes''\<rparr>,
      \<lparr>name = Str ''Globex'', marketCap = Fin 500000000, revenueGrowth = Fin (- (7 / 2)),
       profitGrowth = Fin 0, marginExpansion = Fin 0, sector = Str ''Other'',
       revenueStream = Str [], debtReduced = ''No''\<rparr>]
   \<and> count (totals (chartData nts (parseValues nts (Some scenario_grid)))) = 2
   \<and> avgRevenueGrowth (totals (chartData nts (parseValues nts (Some scenario_grid)))) =
       Fin (23 / 4)"
proof -
  have es: "chartData nts (parseValues nts (Some scenario_grid)) =
     [\<lparr>name = Str ''Acme'', marketCap = Fin 1200000000, revenueGrowth = Fin 15,
       profitGrowth = Fin 0, marginExpansion = Fin 0, sector = Str ''Other'',
       revenueStream = Str [], debtReduced = ''Yes''\<rparr>,
      \<lparr>name = Str ''Globex'', marketCap = Fin 500000000, revenueGrowth = Fin (- (7 / 2)),
       profitGrowth = Fin 0, marginExpansion = Fin 0, sector = Str ''Other'',
       revenueStream = Str [], debtReduced = ''No''\<rparr>]"
    by (simp add: scenario_grid_def entry_defs row_defs eval_defs)
  show ?thesis
    unfolding es by (simp add: totals_def or_zero_def fadd_def round_defs)
qed

text \<open>No entry of \<open>chartData\<close> has NaN in a percentage field.\<close>

lemma chartData_percent_fields:
  "e \<in> set (chartData nts rows) \<Longrightarrow>
   revenueGrowth e \<noteq> NaN \<and> profitGrowth e \<noteq> NaN \<and> marginExpansion e \<noteq> NaN"
  by (auto simp: chartData_def chartEntry_def parsePercent_not_NaN)

section \<open>The averages\<close>











section \<open>The ranking\<close>

lemma jpos_jsub: "a \<noteq> NaN \<Longrightarrow> b \<noteq> NaN \<Longrightarrow> jpos (jsub b a) = (\<not> jle b a)"
  by (cases a; cases b) (auto simp: jsub_def)

lemma jpos_same: "\<not> jpos (jsub k k)"
  by (cases k) (simp_all add: jsub_def)

lemma jle_trans: "jle a b \<Longrightarrow> jle b c \<Longrightarrow> jle a c"
  by (cases a; cases b; cases c) auto

lemma jle_total: "a \<noteq> NaN \<Longrightarrow> b \<noteq> NaN \<Longrightarrow> jle a b \<or> jle b a"
  by (cases a; cases b) auto

lemma set_insert_by: "set (insert_by cmp x ys) = insert x (set ys)"
  by (induction ys) auto

lemma set_js_sort: "set (js_sort cmp xs) = set xs"
  by (induction xs) (simp_all add: js_sort_def set_insert_by)

lemma length_insert_by: "length (insert_by cmp x ys) = Suc (length ys)"
  by (induction ys) auto

lemma length_js_sort: "length (js_sort cmp xs) = length xs"
  by (induction xs) (simp_all add: js_sort_def length_insert_by)

lemma descending_insert:
  assumes "marginExpansion x \<noteq> NaN" "\<forall>y \<in> set ys. marginExpansion y \<noteq> NaN" "descending ys"
  shows "descending (insert_by cmp_margin x ys)"
  using assms
proof (induction ys)
  case Nil
  then show ?case by (simp add: descending_def)
next
  case (Cons y ys)
  show ?case
  proof (cases "jpos (cmp_margin x y)")
    case True
    then have xy: "jle (marginExpansion x) (marginExpansion y)"
      using Cons.prems jpos_jsub[of "marginExpansion x" "marginExpansion y"]
        jle_total[of "marginExpansion x" "marginExpansion y"]
      by (auto simp: cmp_margin_def)
    have "descending (insert_by cmp_margin x ys)"
      using Cons by (simp add: descending_def)
    then show ?thesis
      using True Cons.prems xy by (auto simp: descending_def set_insert_by)
  next
    case False
    then have yx: "jle (marginExpansion y) (marginExpansion x)"
      using Cons.prems jpos_jsub[of "marginExpansion x" "marginExpansion y"]
      by (auto simp: cmp_margin_def)
    have "\<forall>z \<in> set ys. jle (marginExpansion z) (marginExpansion x)"
      using Cons.prems yx by (auto simp: descending_def intro: jle_trans)
    then show ?thesis
      using False Cons.prems yx by (simp add: descending_def)
  qed
qed

lemma descending_js_sort:
  "\<forall>e \<in> set es. marginExpansion e \<noteq> NaN \<Longrightarrow> descending (js_sort cmp_margin es)"
proof (induction es)
  case Nil
  then show ?case by (simp add: js_sort_def descending_def)
next
  case (Cons e es)
  then have "descending (js_sort cmp_margin es)" by simp
  moreover have "\<forall>y \<in> set (js_sort cmp_margin es). marginExpansion y \<noteq> NaN"
    using Cons.prems by (simp add: set_js_sort)
  ultimately have "descending (insert_by cmp_margin e (js_sort cmp_margin es))"
    using Cons.prems by (intro descending_insert) simp_all
  then show ?case by (simp add: js_sort_def)
qed

text \<open>An inserted entry comes before the entries of its own margin expansion.\<close>

lemma filter_insert_by:
  "filter (\<lambda>e. marginExpansion e = k) (insert_by cmp_margin x ys) =
     (if marginExpansion x = k then x # filter (\<lambda>e. marginExpansion e = k) ys
      else filter (\<lambda>e. marginExpansion e = k) ys)"
  by (induction ys) (auto simp: cmp_margin_def jpos_same)

lemma filter_js_sort:
  "filter (\<lambda>e. marginExpansion e = k) (js_sort cmp_margin es) =
   filter (\<lambda>e. marginExpansion e = k) es"
  by (induction es) (simp_all add: js_sort_def filter_insert_by)

text \<open>
  C8. The slice that \<open>chartData.sort(cmp).slice(0, n)\<close> returns is the first \<open>n\<close> entries
  of the sorted array (the component takes \<open>n = 5\<close>); for entries whose margin expansion
  is a number, the sorted array has the entries of the input (as many, the same ones)
  in descending order of margin expansion, and the entries of each margin expansion
  stand in their input order.
  Of the entries A (5), B (5) and C (3) the first two are A and B, in that order.
\<close>

theorem sort_slice_stable_descending:
  assumes "\<forall>e \<in> set es. marginExpansion e \<noteq> NaN"
  shows "snd (sort_slice n es) = take n (js_sort cmp_margin es)
    \<and> length (js_sort cmp_margin es) = length es
    \<and> set (js_sort cmp_margin es) = set es
    \<and> snd (marginExpansionTop5 es) = take 5 (js_sort cmp_margin es)
    \<and> descending (js_sort cmp_margin es)
    \<and> (\<forall>k. filter (\<lambda>e. marginExpansion e = k) (js_sort cmp_margin es) =
            filter (\<lambda>e. marginExpansion e = k) es)
    \<and> snd (sort_slice 2 [example_entry ''A'' 0 0 5, example_entry ''B'' 0 0 5,
                          example_entry ''C'' 0 0 3])
        = [example_entry ''A'' 0 0 5, example_entry ''B'' 0 0 5]"
proof -
  have ex: "snd (sort_slice 2 [example_entry ''A'' 0 0 5, example_entry ''B'' 0 0 5,
                          example_entry ''C'' 0 0 3])
        = [example_entry ''A'' 0 0 5, example_entry ''B'' 0 0 5]"
    by (simp add: sort_slice_def js_sort_def cmp_margin_def jsub_def example_entry_def)
  show ?thesis
    using descending_js_sort[OF assms] ex
    by (simp add: marginExpansionTop5_def sort_slice_def Let_def length_js_sort set_js_sort
        filter_js_sort)
qed

theorem sort_slice_stable_descending_witness:
  "snd (sort_slice 2 [example_entry ''C'' 0 0 3, example_entry ''A'' 0 0 5,
                      example_entry ''B'' 0 0 5])
     = [example_entry ''A'' 0 0 5, example_entry ''B'' 0 0 5]
   \<and> descending (js_sort cmp_margin [example_entry ''C'' 0 0 3, example_entry ''A'' 0 0 5,
                      example_entry ''B'' 0 0 5])"
proof -
  have h: "\<forall>e \<in> set [example_entry ''C'' 0 0 3, example_entry ''A'' 0 0 5,
      example_entry ''B'' 0 0 5]. marginExpansion e \<noteq> NaN"
    by (simp add: example_entry_def)
  have s: "js_sort cmp_margin [example_entry ''C'' 0 0 3, example_entry ''A'' 0 0 5,
      example_entry ''B'' 0 0 5] =
      [example_entry ''A'' 0 0 5, example_entry ''B'' 0 0 5, example_entry ''C'' 0 0 3]"
    by (simp add: js_sort_def cmp_margin_def jsub_def example_entry_def)
  show ?thesis
    using sort_slice_stable_descending[OF h, of 2] by (simp add: s)
qed

text \<open>
  C3. The claim: ranking leaves the sequence of entries as it was. \<open>sort\<close> sorts the
  array \<open>chartData\<close> itself, and the slice is taken afterwards: after the list is made
  from the entries A (3) and B (5), \<open>chartData\<close> holds B before A.
\<close>

theorem sort_mutates_chartData:
  "fst (marginExpansionTop5 [example_entry ''A'' 0 0 3, example_entry ''B'' 0 0 5])
     = [example_entry ''B'' 0 0 5, example_entry ''A'' 0 0 3]
   \<and> fst (marginExpansionTop5 [example_entry ''A'' 0 0 3, example_entry ''B'' 0 0 5])
     \<noteq> [example_entry ''A'' 0 0 3, example_entry ''B'' 0 0 5]"
  by (simp add: marginExpansionTop5_def sort_slice_def Let_def js_sort_def cmp_margin_def
      jsub_def example_entry_def)

end
